theory Spec2Isabelle
  imports Main
begin

section \<open>Strings\<close>

text \<open>
  Names, paths and messages are \<open>string\<close>s: a Python string is the list of the bytes of
  its UTF-8 encoding, on which equality, \<open>startswith\<close> and \<open>in\<close> are those of the string.
  Exceptions are carried by their message.

  Python's \<open>str.lower\<close> follows the Unicode case tables, which map some characters
  outside ASCII to ASCII letters (KELVIN SIGN to \<open>k\<close>). It is not defined here: every
  function that calls it takes it as the parameter \<open>lower\<close>, any function on strings,
  and a theorem says what it needs of it.
\<close>

type_synonym exn = string

text \<open>\<open>startswith s p\<close> is Python's \<open>s.startswith(p)\<close>.\<close>

fun startswith :: "string \<Rightarrow> string \<Rightarrow> bool" where
  "startswith s [] = True"
| "startswith [] (p # ps) = False"
| "startswith (c # cs) (p # ps) = (c = p \<and> startswith cs ps)"

text \<open>\<open>str_in sub s\<close> is Python's \<open>sub in s\<close> on strings: \<open>sub\<close> occurs in \<open>s\<close> as a
  contiguous run of characters.\<close>

fun str_in :: "string \<Rightarrow> string \<Rightarrow> bool" where
  "str_in sub [] = (sub = [])"
| "str_in sub (c # cs) = (startswith (c # cs) sub \<or> str_in sub cs)"

text \<open>\<open>sep.join(xs)\<close>.\<close>

fun join :: "string \<Rightarrow> string list \<Rightarrow> string" where
  "join sep [] = []"
| "join sep [x] = x"
| "join sep (x # y # ys) = x @ sep @ join sep (y # ys)"

text \<open>\<open>str(n)\<close> for a Python integer: decimal digits, with a leading minus sign.\<close>

definition digit_char :: "nat \<Rightarrow> char" where
  "digit_char d = char_of (48 + d)"

fun str_nat :: "nat \<Rightarrow> string" where
  "str_nat n = (if n < 10 then [digit_char n] else str_nat (n div 10) @ [digit_char (n mod 10)])"

definition str_int :: "int \<Rightarrow> string" where
  "str_int i = (if i < 0 then CHR ''-'' # str_nat (nat (- i)) else str_nat (nat i))"

section \<open>Graph input classifier: \<open>tools/check_onnx_inputs.py\<close>\<close>

subsection \<open>The graph as the static parser returns it\<close>

text \<open>
  One dimension of a declared tensor shape carries an integer \<open>dim_value\<close> and a name
  \<open>dim_param\<close>; a field that is not set reads as \<open>0\<close> and as the empty string.
\<close>

record dimension =
  dim_value :: int
  dim_param :: string

text \<open>A declared graph input: \<open>name\<close>, \<open>type.tensor_type.shape.dim\<close> and
  \<open>type.tensor_type.elem_type\<close>.\<close>

record value_info =
  name :: string
  dim :: "dimension list"
  elem_type :: int

text \<open>An element of a display shape is a Python int or a Python str.\<close>

datatype shape_elem = PyInt int | PyStr string

text \<open>The dictionary \<open>input_info\<close> with its three keys.\<close>

record input_info =
  info_name :: string
  info_shape :: "shape_elem list"
  info_type :: int

text \<open>Line 55: \<open>dim.dim_value if dim.dim_value > 0 else (dim.dim_param if dim.dim_param else -1)\<close>.\<close>

definition shape_elem_of :: "dimension \<Rightarrow> shape_elem" where
  "shape_elem_of d =
     (if dim_value d > 0 then PyInt (dim_value d)
      else if dim_param d \<noteq> [] then PyStr (dim_param d)
      else PyInt (- 1))"

definition shape_of :: "value_info \<Rightarrow> shape_elem list" where
  "shape_of input_tensor = map shape_elem_of (dim input_tensor)"

definition make_input_info :: "value_info \<Rightarrow> input_info" where
  "make_input_info input_tensor =
     \<lparr> info_name = name input_tensor,
       info_shape = shape_of input_tensor,
       info_type = elem_type input_tensor \<rparr>"

subsection \<open>Classification by name (lines 47 to 73)\<close>

record buckets =
  inputs_embeds_inputs :: "input_info list"
  attention_mask_inputs :: "input_info list"
  position_ids_inputs :: "input_info list"
  past_key_values_inputs :: "input_info list"
  other_inputs :: "input_info list"

definition empty_buckets :: buckets where
  "empty_buckets =
     \<lparr> inputs_embeds_inputs = [], attention_mask_inputs = [], position_ids_inputs = [],
       past_key_values_inputs = [], other_inputs = [] \<rparr>"

text \<open>The four tests of the \<open>if\<close>/\<open>elif\<close> chain (lines 64, 66, 68 and 70), each as the
  source writes it; \<open>lower n\<close> is \<open>name.lower()\<close>.\<close>

definition is_inputs_embeds :: "(string \<Rightarrow> string) \<Rightarrow> string \<Rightarrow> bool" where
  "is_inputs_embeds lower n = (str_in ''inputs_embeds'' (lower n) \<or> n = ''inputs_embeds'')"

definition is_attention_mask :: "(string \<Rightarrow> string) \<Rightarrow> string \<Rightarrow> bool" where
  "is_attention_mask lower n = (str_in ''attention_mask'' (lower n) \<or> n = ''attention_mask'')"

definition is_position_ids :: "(string \<Rightarrow> string) \<Rightarrow> string \<Rightarrow> bool" where
  "is_position_ids lower n = (str_in ''position_ids'' (lower n) \<or> n = ''position_ids'')"

definition is_past_key_values :: "(string \<Rightarrow> string) \<Rightarrow> string \<Rightarrow> bool" where
  "is_past_key_values lower n =
     (str_in ''past_key_values'' (lower n) \<or> startswith n ''past_key_values'')"

text \<open>The body of the loop over the declared inputs: the first test that holds decides
  the list the input is appended to.\<close>

definition classify_step ::
  "(string \<Rightarrow> string) \<Rightarrow> value_info \<Rightarrow> buckets \<Rightarrow> buckets"
where
  "classify_step lower input_tensor b =
     (let n = name input_tensor; info = make_input_info input_tensor
      in if is_inputs_embeds lower n then
           b\<lparr>inputs_embeds_inputs := inputs_embeds_inputs b @ [info]\<rparr>
         else if is_attention_mask lower n then
           b\<lparr>attention_mask_inputs := attention_mask_inputs b @ [info]\<rparr>
         else if is_position_ids lower n then
           b\<lparr>position_ids_inputs := position_ids_inputs b @ [info]\<rparr>
         else if is_past_key_values lower n then
           b\<lparr>past_key_values_inputs := past_key_values_inputs b @ [info]\<rparr>
         else
           b\<lparr>other_inputs := other_inputs b @ [info]\<rparr>)"

definition classify_inputs :: "(string \<Rightarrow> string) \<Rightarrow> value_info list \<Rightarrow> buckets" where
  "classify_inputs lower inputs = fold (classify_step lower) inputs empty_buckets"

subsection \<open>Printed lines and calls\<close>

text \<open>
  The scripts print messages in Chinese; a printed line is modelled by the statement that
  prints it together with the values it interpolates. \<open>Rule\<close> is \<open>"=" * 80\<close>.
\<close>

datatype rt_dim = DimInt int | DimStr string | DimNone

datatype line =
    Analyzing string \<comment> \<open>line 25, with the model path\<close>
  | Rule
  | LoadOk \<comment> \<open>line 31\<close>
  | LoadFailed exn \<comment> \<open>line 33\<close>
  | StaticTitle \<comment> \<open>line 38\<close>
  | InputCount nat \<comment> \<open>lines 44 and 120: total number of inputs\<close>
  | EmbedsHeader \<comment> \<open>line 77\<close>
  | MaskHeader \<comment> \<open>line 83\<close>
  | PositionHeader \<comment> \<open>line 89\<close>
  | PkvHeader nat \<comment> \<open>line 95, with the size of the category\<close>
  | OtherHeader \<comment> \<open>line 107\<close>
  | Entry string string \<comment> \<open>the entry line: name and rendered shape\<close>
  | Elided nat \<comment> \<open>line 101, with the number of entries left out\<close>
  | BlankRule \<comment> \<open>line 113\<close>
  | RuntimeTitle \<comment> \<open>line 114\<close>
  | RtName string \<comment> \<open>line 127\<close>
  | RtShape "rt_dim list" \<comment> \<open>line 128\<close>
  | RtType string \<comment> \<open>line 129\<close>
  | RtDynamic "nat list" \<comment> \<open>line 134: indices of the dynamic dimensions\<close>
  | Blank \<comment> \<open>line 135\<close>
  | SessionFailed exn \<comment> \<open>line 138\<close>
  | SessionHint1 \<comment> \<open>line 139\<close>
  | SessionHint2 \<comment> \<open>line 140\<close>
  | NoModelFound \<comment> \<open>line 167\<close>
  | UsageIntro \<comment> \<open>line 168\<close>
  | Usage string \<comment> \<open>line 169, with \<open>sys.argv[0]\<close>\<close>
  | PlacesIntro \<comment> \<open>line 170\<close>
  | Place string \<comment> \<open>line 172, one per candidate path\<close>
  | Missing string \<comment> \<open>line 176, with the model path\<close>

text \<open>What a run does, in order: the lines it prints and the calls it makes to the
  static parser and to the runtime.\<close>

datatype event =
    Print line
  | Call_onnx_load string
  | Call_InferenceSession string

subsection \<open>Grouped listing (lines 76 to 110)\<close>

definition render_elem :: "shape_elem \<Rightarrow> string" where
  "render_elem d = (case d of PyInt i \<Rightarrow> str_int i | PyStr s \<Rightarrow> [CHR 0x22] @ s @ [CHR 0x22])"

definition shape_str :: "shape_elem list \<Rightarrow> string" where
  "shape_str sh = ''['' @ join '', '' (map render_elem sh) @ '']''"

definition entry :: "input_info \<Rightarrow> line" where
  "entry info = Entry (info_name info) (shape_str (info_shape info))"

definition print_group :: "line \<Rightarrow> input_info list \<Rightarrow> line list" where
  "print_group header infos = (if infos \<noteq> [] then header # map entry infos else [])"

text \<open>The slices \<open>xs[:3]\<close> and \<open>xs[-3:]\<close>; the second starts at \<open>max (len xs - 3) 0\<close>.\<close>

definition first3 :: "'a list \<Rightarrow> 'a list" where
  "first3 xs = take 3 xs"

definition last3 :: "'a list \<Rightarrow> 'a list" where
  "last3 xs = drop (length xs - 3) xs"

definition print_past_key_values :: "input_info list \<Rightarrow> line list" where
  "print_past_key_values pkv =
     (if pkv \<noteq> [] then
        PkvHeader (length pkv) # map entry (first3 pkv)
        @ (if length pkv > 6 then [Elided (length pkv - 6)] else [])
        @ map entry (last3 pkv)
      else [])"

definition static_report :: "(string \<Rightarrow> string) \<Rightarrow> value_info list \<Rightarrow> line list" where
  "static_report lower inputs =
     (let b = classify_inputs lower inputs
      in [Rule, StaticTitle, Rule, InputCount (length inputs)]
         @ print_group EmbedsHeader (inputs_embeds_inputs b)
         @ print_group MaskHeader (attention_mask_inputs b)
         @ print_group PositionHeader (position_ids_inputs b)
         @ print_past_key_values (past_key_values_inputs b)
         @ print_group OtherHeader (other_inputs b))"

subsection \<open>Runtime listing (lines 117 to 140)\<close>

text \<open>An input as the runtime session reports it. A dimension of its shape is an
  integer, a name, or \<open>None\<close>.\<close>

record node_arg =
  arg_name :: string
  arg_shape :: "rt_dim list"
  arg_type :: string

definition is_str :: "rt_dim \<Rightarrow> bool" where
  "is_str d = (case d of DimStr _ \<Rightarrow> True | _ \<Rightarrow> False)"

definition is_int :: "rt_dim \<Rightarrow> bool" where
  "is_int d = (case d of DimInt _ \<Rightarrow> True | _ \<Rightarrow> False)"

definition int_of :: "rt_dim \<Rightarrow> int" where
  "int_of d = (case d of DimInt i \<Rightarrow> i | _ \<Rightarrow> 0)"

text \<open>Line 132: \<open>isinstance(dim, str) or (isinstance(dim, int) and dim < 0)\<close>;
  \<open>int_of\<close> is read only under \<open>is_int\<close>.\<close>

definition is_dynamic :: "rt_dim \<Rightarrow> bool" where
  "is_dynamic d = (is_str d \<or> (is_int d \<and> int_of d < 0))"

definition dynamic_dims :: "rt_dim list \<Rightarrow> nat list" where
  "dynamic_dims shape = map fst (filter (\<lambda>(i, d). is_dynamic d) (enumerate 0 shape))"

definition runtime_input_lines :: "node_arg \<Rightarrow> line list" where
  "runtime_input_lines input_meta =
     [RtName (arg_name input_meta), RtShape (arg_shape input_meta), RtType (arg_type input_meta)]
     @ (if dynamic_dims (arg_shape input_meta) \<noteq> []
        then [RtDynamic (dynamic_dims (arg_shape input_meta))] else [])
     @ [Blank]"

subsection \<open>\<open>analyze_onnx_model\<close> and \<open>main\<close>\<close>

text \<open>
  What the script calls outside itself: \<open>str.lower\<close>, \<open>onnx.load\<close> (for a path, the
  exception it raises or the declared inputs of the graph it parsed), the opening of an
  \<open>InferenceSession\<close> (the exception, or the inputs the session reports), and
  \<open>os.path.exists\<close>.
\<close>

record env =
  str_lower :: "string \<Rightarrow> string"
  onnx_load :: "string \<Rightarrow> exn + value_info list"
  inference_session :: "string \<Rightarrow> exn + node_arg list"
  path_exists :: "string \<Rightarrow> bool"

definition runtime_phase :: "env \<Rightarrow> string \<Rightarrow> event list" where
  "runtime_phase e model_path =
     Call_InferenceSession model_path #
     (case inference_session e model_path of
        Inl ex \<Rightarrow> map Print [SessionFailed ex, SessionHint1, SessionHint2]
      | Inr metas \<Rightarrow>
          map Print (InputCount (length metas) # concat (map runtime_input_lines metas)))"

definition analyze_onnx_model :: "env \<Rightarrow> string \<Rightarrow> event list" where
  "analyze_onnx_model e model_path =
     [Print (Analyzing model_path), Print Rule, Call_onnx_load model_path]
     @ (case onnx_load e model_path of
          Inl ex \<Rightarrow> [Print (LoadFailed ex)]
        | Inr inputs \<Rightarrow>
            Print LoadOk # map Print (static_report (str_lower e) inputs)
            @ map Print [BlankRule, RuntimeTitle, Rule]
            @ runtime_phase e model_path)"

definition possible_paths :: "string list" where
  "possible_paths =
     [''E:'' @ [CHR 0x5C] @ ''AutoTestDemo'' @ [CHR 0x5C] @ ''TestWings'' @ [CHR 0x5C] @ ''models''
        @ [CHR 0x5C] @ ''vl'' @ [CHR 0x5C] @ ''decoder_model_merged_q4f16.onnx'',
      ''C:'' @ [CHR 0x5C] @ ''Users'' @ [CHR 0x5C] @ ''ch2oh'' @ [CHR 0x5C] @ ''AppData''
        @ [CHR 0x5C] @ ''Local'' @ [CHR 0x5C] @ ''Android'' @ [CHR 0x5C] @ ''Sdk''
        @ [CHR 0x5C] @ ''platform-tools'' @ [CHR 0x5C] @ ''models'' @ [CHR 0x5C] @ ''vl''
        @ [CHR 0x5C] @ ''decoder_model_merged_q4f16.onnx'',
      ''models/vl/decoder_model_merged_q4f16.onnx'',
      ''../models/vl/decoder_model_merged_q4f16.onnx'']"

text \<open>
  The command line is \<open>sys.argv = argv0 # args\<close>. The result is the run and how the
  process ends: \<open>Some n\<close> for \<open>sys.exit(n)\<close>, \<open>None\<close> when \<open>main\<close> returns.
\<close>

definition check_and_analyze :: "env \<Rightarrow> string \<Rightarrow> event list \<times> nat option" where
  "check_and_analyze e model_path =
     (if \<not> path_exists e model_path then ([Print (Missing model_path)], Some 1)
      else (analyze_onnx_model e model_path, None))"

definition main :: "env \<Rightarrow> string \<Rightarrow> string list \<Rightarrow> event list \<times> nat option" where
  "main e argv0 args =
     (case args of
        a # _ \<Rightarrow> check_and_analyze e a
      | [] \<Rightarrow>
          (case find (path_exists e) possible_paths of
             None \<Rightarrow>
               (map Print ([NoModelFound, UsageIntro, Usage argv0, PlacesIntro]
                           @ map Place possible_paths),
                Some 1)
           | Some p \<Rightarrow> check_and_analyze e p))"

subsection \<open>Categories, for stating where an input lands\<close>

text \<open>The five lists of \<open>buckets\<close>, named, and the list the \<open>if\<close>/\<open>elif\<close> chain of
  \<open>classify_step\<close> selects for a name.\<close>

datatype category = Inputs_embeds | Attention_mask | Position_ids | Past_key_values | Other

definition category_of :: "(string \<Rightarrow> string) \<Rightarrow> string \<Rightarrow> category" where
  "category_of lower n =
     (if is_inputs_embeds lower n then Inputs_embeds
      else if is_attention_mask lower n then Attention_mask
      else if is_position_ids lower n then Position_ids
      else if is_past_key_values lower n then Past_key_values
      else Other)"

fun bucket :: "category \<Rightarrow> buckets \<Rightarrow> input_info list" where
  "bucket Inputs_embeds b = inputs_embeds_inputs b"
| "bucket Attention_mask b = attention_mask_inputs b"
| "bucket Position_ids b = position_ids_inputs b"
| "bucket Past_key_values b = past_key_values_inputs b"
| "bucket Other b = other_inputs b"

subsection \<open>Sample inputs\<close>

text \<open>
  On a string of ASCII characters \<open>str.lower\<close> folds the capital letters \<open>A\<close> to \<open>Z\<close> and
  leaves the rest; \<open>ascii_lower\<close> is that function, used where a sample run needs a
  concrete \<open>lower\<close>. All sample names are ASCII.
\<close>

definition ascii_lower_char :: "char \<Rightarrow> char" where
  "ascii_lower_char c =
     (let n = (of_char c :: nat)
      in if 65 \<le> n \<and> n \<le> 90 then char_of (n + 32) else c)"

definition ascii_lower :: "string \<Rightarrow> string" where
  "ascii_lower s = map ascii_lower_char s"

definition cache_key_input :: value_info where
  "cache_key_input = \<lparr> name = ''Past_Key_Values.0.key'', dim = [], elem_type = 10 \<rparr>"

definition cache_mask_input :: value_info where
  "cache_mask_input = \<lparr> name = ''past_key_values.attention_mask'', dim = [], elem_type = 7 \<rparr>"

definition sample_input :: value_info where
  "sample_input =
     \<lparr> name = ''inputs_embeds'',
       dim = [\<lparr> dim_value = 0, dim_param = ''batch_size'' \<rparr>,
              \<lparr> dim_value = 0, dim_param = [] \<rparr>,
              \<lparr> dim_value = 1536, dim_param = [] \<rparr>],
       elem_type = 1 \<rparr>"

definition sample_node_arg :: node_arg where
  "sample_node_arg =
     \<lparr> arg_name = ''inputs_embeds'',
       arg_shape = [DimStr ''batch_size'', DimNone, DimInt 1536, DimInt (- 1)],
       arg_type = ''tensor(float)'' \<rparr>"

text \<open>A cache tensor of one layer, and the text its shape is displayed as.\<close>

definition cache_input :: "string \<Rightarrow> value_info" where
  "cache_input n =
     \<lparr> name = n,
       dim = [\<lparr> dim_value = 0, dim_param = ''batch_size'' \<rparr>,
              \<lparr> dim_value = 2, dim_param = [] \<rparr>,
              \<lparr> dim_value = 0, dim_param = ''past_sequence_length'' \<rparr>,
              \<lparr> dim_value = 128, dim_param = [] \<rparr>],
       elem_type = 10 \<rparr>"

definition cache_shape_text :: string where
  "cache_shape_text =
     ''['' @ [CHR 0x22] @ ''batch_size'' @ [CHR 0x22] @ '', 2, ''
     @ [CHR 0x22] @ ''past_sequence_length'' @ [CHR 0x22] @ '', 128]''"

definition embeds_shape_text :: string where
  "embeds_shape_text = ''['' @ [CHR 0x22] @ ''batch_size'' @ [CHR 0x22] @ '', -1, 1536]''"

text \<open>A graph with seven cache inputs among its declared inputs, and one with four.\<close>

definition seven_cache_graph :: "value_info list" where
  "seven_cache_graph =
     [sample_input,
      cache_input ''past_key_values.0.key'', cache_input ''past_key_values.0.value'',
      cache_input ''past_key_values.1.key'', cache_input ''past_key_values.1.value'',
      cache_input ''past_key_values.2.key'', cache_input ''past_key_values.2.value'',
      cache_input ''past_key_values.3.key'']"

definition four_cache_graph :: "value_info list" where
  "four_cache_graph =
     [sample_input,
      cache_input ''past_key_values.0.key'', cache_input ''past_key_values.0.value'',
      cache_input ''past_key_values.1.key'', cache_input ''past_key_values.1.value'']"

text \<open>Files both libraries read; the runtime reports one input.\<close>

definition graph_env :: "value_info list \<Rightarrow> env" where
  "graph_env g =
     \<lparr> str_lower = ascii_lower,
       onnx_load = (\<lambda>p. if p = ''model.onnx'' then Inr g else Inl ''No such file''),
       inference_session =
         (\<lambda>p. if p = ''model.onnx'' then Inr [sample_node_arg] else Inl ''NoSuchFile''),
       path_exists = (\<lambda>p. p = ''model.onnx'') \<rparr>"

definition good_env :: env where
  "good_env = graph_env [sample_input]"

text \<open>A file the static parser rejects and the runtime opens.\<close>

definition static_fails_env :: env where
  "static_fails_env =
     \<lparr> str_lower = ascii_lower,
       onnx_load = (\<lambda>p. Inl ''Error parsing message''),
       inference_session = (\<lambda>p. Inr [sample_node_arg]),
       path_exists = (\<lambda>p. p = ''model.onnx'') \<rparr>"

text \<open>A file the static parser reads and the runtime rejects.\<close>

definition runtime_fails_env :: env where
  "runtime_fails_env =
     \<lparr> str_lower = ascii_lower,
       onnx_load = (\<lambda>p. Inr [sample_input]),
       inference_session = (\<lambda>p. Inl ''CPUExecutionProvider is not available''),
       path_exists = (\<lambda>p. p = ''model.onnx'') \<rparr>"

text \<open>No file at all.\<close>

definition no_file_env :: env where
  "no_file_env =
     \<lparr> str_lower = ascii_lower,
       onnx_load = (\<lambda>p. Inl ''No such file''),
       inference_session = (\<lambda>p. Inl ''NoSuchFile''),
       path_exists = (\<lambda>p. False) \<rparr>"

text \<open>An event that is a printed line, not a call.\<close>

definition is_print :: "event \<Rightarrow> bool" where
  "is_print ev = (case ev of Print _ \<Rightarrow> True | _ \<Rightarrow> False)"

section \<open>Model fetcher: \<open>docs/tools/download_model.py\<close>\<close>

subsection \<open>The hub client and the file system\<close>

text \<open>
  The hub client and the file system are libraries outside the repository. Retrieving a
  file of the model repository either raises an exception or stores the file under the
  local directory and returns the path it stored it at; \<open>os.path.getsize\<close> reads the
  size of a stored file and raises for a path that holds none. A disk maps a path to the
  size in bytes of the file stored there. \<open>abspath\<close> and \<open>basename\<close> are the functions
  of \<open>os.path\<close>, which depend on the platform.
\<close>

type_synonym disk = "string \<Rightarrow> nat option"

record hub =
  serve :: "string \<Rightarrow> exn + nat" \<comment> \<open>the exception, or the size of the file retrieved\<close>
  local_file :: "string \<Rightarrow> string" \<comment> \<open>where a retrieved file is stored\<close>
  abspath :: "string \<Rightarrow> string"
  basename :: "string \<Rightarrow> string"

definition hf_hub_download :: "hub \<Rightarrow> string \<Rightarrow> disk \<Rightarrow> (exn + string) \<times> disk" where
  "hf_hub_download h filename d =
     (case serve h filename of
        Inl ex \<Rightarrow> (Inl ex, d)
      | Inr n \<Rightarrow> (Inr (local_file h filename), d(local_file h filename \<mapsto> n)))"

definition getsize :: "disk \<Rightarrow> string \<Rightarrow> exn + nat" where
  "getsize d p = (case d p of None \<Rightarrow> Inl ''FileNotFoundError'' | Some n \<Rightarrow> Inr n)"

subsection \<open>Printed lines and requests\<close>

datatype dl_line =
    VariantBanner \<comment> \<open>line 43\<close>
  | VariantNote \<comment> \<open>line 44\<close>
  | Starting string \<comment> \<open>line 50, with the repository identifier\<close>
  | SaveDir string \<comment> \<open>line 51, with the absolute local directory\<close>
  | FileCount nat \<comment> \<open>line 52, with the number of required files\<close>
  | Patience \<comment> \<open>line 53\<close>
  | Downloading string \<comment> \<open>line 59, with the file requested next\<close>
  | Completed string \<comment> \<open>line 68, with the base name of the local file\<close>
  | AllCompleted \<comment> \<open>line 70\<close>
  | FilesAt string \<comment> \<open>line 71\<close>
  | DownloadedHeader \<comment> \<open>line 72, the head of the list of files\<close>
  | FileSize string nat \<comment> \<open>line 75: base name and size; the size is kept in bytes\<close>
  | DownloadFailed exn \<comment> \<open>line 80\<close>
  | MainBanner \<comment> \<open>line 89\<close>
  | MainNote \<comment> \<open>line 90\<close>

text \<open>\<open>Request f\<close> is the call of \<open>hf_hub_download\<close> for the file \<open>f\<close> of the repository
  \<open>repo_id\<close>.\<close>

datatype dl_event = Say dl_line | Request string

subsection \<open>The file as shipped\<close>

text \<open>
  The docstring of \<open>download_model\<close> is closed at line 24 and never opened: line 19
  starts with the text of the docstring, without the three quotes. The interpreter
  compiles a whole file before it runs any statement of it, and this file does not
  compile. Running the script, or importing the module to call the function, ends with
  \<open>SyntaxError\<close>: nothing is printed by the script and no file is requested.

  With the three quotes put back at line 19, lines 19 to 24 are the docstring and lines
  25 to 81 the body of the function. Both readings are modelled: what the file does
  \<open>As_shipped\<close>, and what its statements do with the \<open>Docstring_opened\<close>.
\<close>

datatype reading = As_shipped | Docstring_opened

definition compile_file :: "reading \<Rightarrow> exn + unit" where
  "compile_file r = (case r of As_shipped \<Rightarrow> Inl ''SyntaxError'' | Docstring_opened \<Rightarrow> Inr ())"

subsection \<open>The statements of \<open>download_model\<close> (lines 25 to 81)\<close>

definition repo_id :: string where
  "repo_id = ''onnx-community/Qwen2-VL-2B-Instruct''"

definition local_dir :: string where
  "local_dir = ''.''"

definition decoder_file :: string where
  "decoder_file = ''onnx/decoder_model_merged_q4f16.onnx''"

definition vision_encoder_file :: string where
  "vision_encoder_file = ''onnx/vision_encoder_q4f16.onnx''"

definition embed_tokens_file :: string where
  "embed_tokens_file = ''onnx/embed_tokens_q4f16.onnx''"

text \<open>The list of lines 29 to 33 after the three \<open>append\<close>s of lines 46 to 48.\<close>

definition required_files :: "string list" where
  "required_files =
     [''config.json'', ''preprocessor_config.json'', ''tokenizer.json'']
     @ [decoder_file] @ [vision_encoder_file] @ [embed_tokens_file]"

text \<open>
  The loop of lines 58 to 68, with \<open>downloaded_files\<close> as accumulator. An exception
  leaves the loop: the result is \<open>Inl\<close> of it, with what was printed and requested so far.
\<close>

fun download_loop ::
  "hub \<Rightarrow> string list \<Rightarrow> string list \<Rightarrow> disk \<Rightarrow> dl_event list \<times> (exn + string list) \<times> disk"
where
  "download_loop h [] downloaded_files d = ([], Inr downloaded_files, d)"
| "download_loop h (file_path # rest) downloaded_files d =
     (case hf_hub_download h file_path d of
        (Inl ex, d') \<Rightarrow> ([Say (Downloading file_path), Request file_path], Inl ex, d')
      | (Inr local, d') \<Rightarrow>
          (case download_loop h rest (downloaded_files @ [local]) d' of
             (evs, r, d'') \<Rightarrow>
               ([Say (Downloading file_path), Request file_path,
                 Say (Completed (basename h local))] @ evs, r, d'')))"

text \<open>The loop of lines 73 to 75; \<open>os.path.getsize\<close> may raise.\<close>

fun report_loop :: "hub \<Rightarrow> disk \<Rightarrow> string list \<Rightarrow> dl_event list \<times> (exn + unit)" where
  "report_loop h d [] = ([], Inr ())"
| "report_loop h d (f # fs) =
     (case getsize d f of
        Inl ex \<Rightarrow> ([], Inl ex)
      | Inr size_bytes \<Rightarrow>
          (case report_loop h d fs of
             (evs, r) \<Rightarrow> (Say (FileSize (basename h f) size_bytes) # evs, r)))"

text \<open>
  The body of the function. The result is what it printed and requested, the boolean
  returned, and the disk afterwards. The \<open>try\<close> covers both loops; its handler prints the
  exception and returns \<open>False\<close>.
\<close>

definition download_model_body :: "hub \<Rightarrow> bool \<Rightarrow> disk \<Rightarrow> dl_event list \<times> bool \<times> disk" where
  "download_model_body h use_q4f16 d =
     (let intro =
            (if use_q4f16 \<or> True then [Say VariantBanner, Say VariantNote] else [])
            @ [Say (Starting repo_id), Say (SaveDir (abspath h local_dir)),
               Say (FileCount (length required_files)), Say Patience]
      in case download_loop h required_files [] d of
           (evs, Inl ex, d') \<Rightarrow> (intro @ evs @ [Say (DownloadFailed ex)], False, d')
         | (evs, Inr downloaded_files, d') \<Rightarrow>
             (case report_loop h d' downloaded_files of
                (evs', Inl ex) \<Rightarrow>
                  (intro @ evs
                   @ [Say AllCompleted, Say (FilesAt (abspath h local_dir)), Say DownloadedHeader]
                   @ evs' @ [Say (DownloadFailed ex)], False, d')
              | (evs', Inr _) \<Rightarrow>
                  (intro @ evs
                   @ [Say AllCompleted, Say (FilesAt (abspath h local_dir)), Say DownloadedHeader]
                   @ evs', True, d')))"

subsection \<open>\<open>download_model\<close> and the script\<close>

text \<open>
  A call of \<open>download_model\<close> from a module that imports the file: what was printed and
  requested, the exception raised or the boolean returned, and the disk afterwards.
\<close>

definition download_model ::
  "reading \<Rightarrow> hub \<Rightarrow> bool \<Rightarrow> disk \<Rightarrow> dl_event list \<times> (exn + bool) \<times> disk"
where
  "download_model r h use_q4f16 d =
     (case compile_file r of
        Inl ex \<Rightarrow> ([], Inl ex, d)
      | Inr _ \<Rightarrow>
          (case download_model_body h use_q4f16 d of
             (evs, result, d') \<Rightarrow> (evs, Inr result, d')))"

text \<open>
  A run of the script with the command line \<open>argv\<close>: what was printed and requested, the
  exit status of the process, and the disk afterwards. The script body, lines 83 to 92,
  reads the flag from \<open>sys.argv\<close> and passes it on; the boolean \<open>download_model\<close> returns
  is dropped, so a script that runs to its end exits with status 0. An uncaught
  \<open>SyntaxError\<close> ends the process with status 1.
\<close>

definition download_main :: "reading \<Rightarrow> hub \<Rightarrow> string list \<Rightarrow> disk \<Rightarrow> dl_event list \<times> nat \<times> disk" where
  "download_main r h argv d =
     (case compile_file r of
        Inl ex \<Rightarrow> ([], 1, d)
      | Inr _ \<Rightarrow>
          (let use_q4f16 = (''--q4f16'' \<in> set argv \<or> ''-q'' \<in> set argv)
           in case download_model_body h use_q4f16 d of
                (evs, result, d') \<Rightarrow> (map Say [MainBanner, MainNote] @ evs, 0, d')))"

subsection \<open>Reading a run of the fetcher\<close>

text \<open>The files requested in a run, in order.\<close>

fun requested :: "dl_event list \<Rightarrow> string list" where
  "requested [] = []"
| "requested (Request f # evs) = f # requested evs"
| "requested (Say l # evs) = requested evs"

text \<open>What the first loop prints and requests for one file that is retrieved.\<close>

definition file_events :: "hub \<Rightarrow> string \<Rightarrow> dl_event list" where
  "file_events h f = [Say (Downloading f), Request f, Say (Completed (basename h (local_file h f)))]"

definition intro_events :: "hub \<Rightarrow> dl_event list" where
  "intro_events h =
     [Say VariantBanner, Say VariantNote, Say (Starting repo_id),
      Say (SaveDir (abspath h local_dir)), Say (FileCount 6), Say Patience]"

subsection \<open>Sample hubs\<close>

text \<open>A hub that serves every file, and one that fails on the fourth.\<close>

definition plain_hub :: hub where
  "plain_hub =
     \<lparr> serve = (\<lambda>f. Inr (length f * 1000)),
       local_file = (\<lambda>f. ''./'' @ f),
       abspath = (\<lambda>p. ''/home/user/models''),
       basename = (\<lambda>p. p) \<rparr>"

definition broken_hub :: hub where
  "broken_hub =
     \<lparr> serve = (\<lambda>f. if f = decoder_file then Inl ''ConnectionError'' else Inr (length f * 1000)),
       local_file = (\<lambda>f. ''./'' @ f),
       abspath = (\<lambda>p. ''/home/user/models''),
       basename = (\<lambda>p. p) \<rparr>"

definition empty_disk :: disk where
  "empty_disk = (\<lambda>p. None)"

section \<open>Properties of the classifier\<close>

subsection \<open>Strings\<close>

lemma startswith_iff: "startswith s p \<longleftrightarrow> (\<exists>r. s = p @ r)"
  by (induction s p rule: startswith.induct) auto

lemma str_in_self: "str_in s s"
  by (cases s) (simp_all add: startswith_iff)

subsection \<open>Each input lands in the list of its category\<close>

lemma bucket_step:
  "bucket c (classify_step lower t b) =
     bucket c b @ (if category_of lower (name t) = c then [make_input_info t] else [])"
  by (cases c) (simp_all add: classify_step_def category_of_def Let_def)

lemma bucket_fold:
  "bucket c (fold (classify_step lower) ts b) =
     bucket c b @ map make_input_info (filter (\<lambda>t. category_of lower (name t) = c) ts)"
  by (induction ts arbitrary: b) (simp_all add: bucket_step)

lemma bucket_classify_inputs:
  "bucket c (classify_inputs lower ts) =
     map make_input_info (filter (\<lambda>t. category_of lower (name t) = c) ts)"
  by (cases c) (simp_all add: classify_inputs_def bucket_fold empty_buckets_def)

lemma info_name_make [simp]: "info_name (make_input_info t) = name t"
  by (simp add: make_input_info_def)

lemma in_bucket_iff:
  "t \<in> set ts \<Longrightarrow>
   make_input_info t \<in> set (bucket c (classify_inputs lower ts))
     \<longleftrightarrow> category_of lower (name t) = c"
proof
  assume "t \<in> set ts" "category_of lower (name t) = c"
  then show "make_input_info t \<in> set (bucket c (classify_inputs lower ts))"
    by (simp add: bucket_classify_inputs)
next
  assume "make_input_info t \<in> set (bucket c (classify_inputs lower ts))"
  then obtain t' where t':
    "make_input_info t' = make_input_info t" "category_of lower (name t') = c"
    by (auto simp: bucket_classify_inputs)
  from t'(1) have "info_name (make_input_info t') = info_name (make_input_info t)" by simp
  then have "name t' = name t" by simp
  with t'(2) show "category_of lower (name t) = c" by simp
qed

lemma category_past_key_values:
  assumes "lower ''inputs_embeds'' = ''inputs_embeds''"
    and "lower ''attention_mask'' = ''attention_mask''"
    and "lower ''position_ids'' = ''position_ids''"
    and "str_in ''past_key_values'' (lower n)"
    and "\<not> str_in ''inputs_embeds'' (lower n)"
    and "\<not> str_in ''attention_mask'' (lower n)"
    and "\<not> str_in ''position_ids'' (lower n)"
  shows "category_of lower n = Past_key_values"
proof -
  have "\<not> is_inputs_embeds lower n"
    using assms(1,5) str_in_self [of "''inputs_embeds''"]
    by (auto simp: is_inputs_embeds_def)
  moreover have "\<not> is_attention_mask lower n"
    using assms(2,6) str_in_self [of "''attention_mask''"]
    by (auto simp: is_attention_mask_def)
  moreover have "\<not> is_position_ids lower n"
    using assms(3,7) str_in_self [of "''position_ids''"]
    by (auto simp: is_position_ids_def)
  moreover have "is_past_key_values lower n"
    using assms(4) by (simp add: is_past_key_values_def)
  ultimately show ?thesis by (simp add: category_of_def)
qed

text \<open>
  C1, as the code has it. Let \<open>lower\<close> be \<open>str.lower\<close>, of which the proof uses only that
  it leaves the three fragments \<open>inputs_embeds\<close>, \<open>attention_mask\<close> and \<open>position_ids\<close>
  as they are. A declared input whose lowered name contains \<open>past_key_values\<close> and
  contains none of these three fragments is appended to the recurrent-cache list and to
  no other list. The three earlier tests of the chain come first, so the restriction is
  needed.
\<close>

theorem past_key_values_classification:
  assumes "lower ''inputs_embeds'' = ''inputs_embeds''"
    and "lower ''attention_mask'' = ''attention_mask''"
    and "lower ''position_ids'' = ''position_ids''"
    and "t \<in> set inputs"
    and "str_in ''past_key_values'' (lower (name t))"
    and "\<not> str_in ''inputs_embeds'' (lower (name t))"
    and "\<not> str_in ''attention_mask'' (lower (name t))"
    and "\<not> str_in ''position_ids'' (lower (name t))"
  shows "make_input_info t \<in> set (past_key_values_inputs (classify_inputs lower inputs))
       \<and> make_input_info t \<notin> set (inputs_embeds_inputs (classify_inputs lower inputs))
       \<and> make_input_info t \<notin> set (attention_mask_inputs (classify_inputs lower inputs))
       \<and> make_input_info t \<notin> set (position_ids_inputs (classify_inputs lower inputs))
       \<and> make_input_info t \<notin> set (other_inputs (classify_inputs lower inputs))"
proof -
  have c: "category_of lower (name t) = Past_key_values"
    using assms(1-3,5-8) by (rule category_past_key_values)
  have "make_input_info t \<in> set (bucket k (classify_inputs lower inputs))
          \<longleftrightarrow> k = Past_key_values" for k
    using in_bucket_iff [OF assms(4), where c = k and lower = lower] c by auto
  from this [of Past_key_values] this [of Inputs_embeds] this [of Attention_mask]
    this [of Position_ids] this [of Other]
  show ?thesis by simp
qed

theorem past_key_values_classification_witness:
  "make_input_info cache_key_input
     \<in> set (past_key_values_inputs (classify_inputs ascii_lower [cache_key_input]))
   \<and> make_input_info cache_key_input
     \<notin> set (inputs_embeds_inputs (classify_inputs ascii_lower [cache_key_input]))
   \<and> make_input_info cache_key_input
     \<notin> set (attention_mask_inputs (classify_inputs ascii_lower [cache_key_input]))
   \<and> make_input_info cache_key_input
     \<notin> set (position_ids_inputs (classify_inputs ascii_lower [cache_key_input]))
   \<and> make_input_info cache_key_input
     \<notin> set (other_inputs (classify_inputs ascii_lower [cache_key_input]))"
proof -
  have n: "name cache_key_input = ''Past_Key_Values.0.key''"
    by (simp add: cache_key_input_def)
  have a: "ascii_lower ''inputs_embeds'' = ''inputs_embeds''" by code_simp
  have b: "ascii_lower ''attention_mask'' = ''attention_mask''" by code_simp
  have c: "ascii_lower ''position_ids'' = ''position_ids''" by code_simp
  have 1: "cache_key_input \<in> set [cache_key_input]" by simp
  have 2: "str_in ''past_key_values'' (ascii_lower (name cache_key_input))"
    unfolding n by code_simp
  have 3: "\<not> str_in ''inputs_embeds'' (ascii_lower (name cache_key_input))"
    unfolding n by code_simp
  have 4: "\<not> str_in ''attention_mask'' (ascii_lower (name cache_key_input))"
    unfolding n by code_simp
  have 5: "\<not> str_in ''position_ids'' (ascii_lower (name cache_key_input))"
    unfolding n by code_simp
  show ?thesis by (rule past_key_values_classification [OF a b c 1 2 3 4 5])
qed

text \<open>
  C1 as stated fails. The name \<open>past_key_values.attention_mask\<close> is ASCII, so
  \<open>str.lower\<close> is \<open>ascii_lower\<close> on it; it contains \<open>past_key_values\<close>, and the input goes
  to the attention-mask list, not to the recurrent-cache list.
\<close>

theorem past_key_values_priority_counterexample:
  "str_in ''past_key_values'' (ascii_lower (name cache_mask_input))
   \<and> past_key_values_inputs (classify_inputs ascii_lower [cache_mask_input]) = []
   \<and> attention_mask_inputs (classify_inputs ascii_lower [cache_mask_input])
       = [make_input_info cache_mask_input]"
  by code_simp

subsection \<open>The run after a successful load\<close>

lemma analyze_loaded:
  "onnx_load e p = Inr inputs \<Longrightarrow>
   analyze_onnx_model e p =
     [Print (Analyzing p), Print Rule, Call_onnx_load p, Print LoadOk]
     @ map Print (static_report (str_lower e) inputs)
     @ [Print BlankRule, Print RuntimeTitle, Print Rule]
     @ runtime_phase e p"
  by (simp add: analyze_onnx_model_def)

lemma entry_make:
  "entry (make_input_info t) = Entry (name t) (shape_str (shape_of t))"
  by (simp add: entry_def make_input_info_def)

lemma print_group_make:
  "map Print (print_group h (map make_input_info ts)) =
     (if ts = [] then []
      else Print h # map (\<lambda>t. Print (Entry (name t) (shape_str (shape_of t)))) ts)"
  by (simp add: print_group_def entry_make comp_def)

lemma category_tests:
  "category_of l n = Inputs_embeds \<longleftrightarrow> is_inputs_embeds l n"
  "category_of l n = Attention_mask \<longleftrightarrow> \<not> is_inputs_embeds l n \<and> is_attention_mask l n"
  "category_of l n = Position_ids \<longleftrightarrow>
     \<not> is_inputs_embeds l n \<and> \<not> is_attention_mask l n \<and> is_position_ids l n"
  "category_of l n = Past_key_values \<longleftrightarrow>
     \<not> is_inputs_embeds l n \<and> \<not> is_attention_mask l n \<and> \<not> is_position_ids l n
     \<and> is_past_key_values l n"
  "category_of l n = Other \<longleftrightarrow>
     \<not> is_inputs_embeds l n \<and> \<not> is_attention_mask l n \<and> \<not> is_position_ids l n
     \<and> \<not> is_past_key_values l n"
  by (simp_all add: category_of_def)

lemma lists_of_classify_inputs:
  "inputs_embeds_inputs (classify_inputs l ts) =
     map make_input_info (filter (\<lambda>t. is_inputs_embeds l (name t)) ts)"
  "attention_mask_inputs (classify_inputs l ts) =
     map make_input_info
       (filter (\<lambda>t. \<not> is_inputs_embeds l (name t) \<and> is_attention_mask l (name t)) ts)"
  "position_ids_inputs (classify_inputs l ts) =
     map make_input_info
       (filter (\<lambda>t. \<not> is_inputs_embeds l (name t) \<and> \<not> is_attention_mask l (name t)
                   \<and> is_position_ids l (name t)) ts)"
  "past_key_values_inputs (classify_inputs l ts) =
     map make_input_info
       (filter (\<lambda>t. \<not> is_inputs_embeds l (name t) \<and> \<not> is_attention_mask l (name t)
                   \<and> \<not> is_position_ids l (name t) \<and> is_past_key_values l (name t)) ts)"
  "other_inputs (classify_inputs l ts) =
     map make_input_info
       (filter (\<lambda>t. \<not> is_inputs_embeds l (name t) \<and> \<not> is_attention_mask l (name t)
                   \<and> \<not> is_position_ids l (name t) \<and> \<not> is_past_key_values l (name t)) ts)"
  using bucket_classify_inputs [of Inputs_embeds l ts]
    bucket_classify_inputs [of Attention_mask l ts]
    bucket_classify_inputs [of Position_ids l ts]
    bucket_classify_inputs [of Past_key_values l ts]
    bucket_classify_inputs [of Other l ts]
  by (simp_all add: category_tests)

text \<open>The run up to and after the recurrent-cache listing, with every line spelled out.\<close>

lemma analyze_static:
  assumes "onnx_load e p = Inr inputs"
    and "cache =
           filter (\<lambda>t. \<not> is_inputs_embeds (str_lower e) (name t)
                      \<and> \<not> is_attention_mask (str_lower e) (name t)
                      \<and> \<not> is_position_ids (str_lower e) (name t)
                      \<and> is_past_key_values (str_lower e) (name t)) inputs"
  shows "analyze_onnx_model e p =
      [Print (Analyzing p), Print Rule, Call_onnx_load p, Print LoadOk,
       Print Rule, Print StaticTitle, Print Rule, Print (InputCount (length inputs))]
      @ map Print (print_group EmbedsHeader
          (map make_input_info (filter (\<lambda>t. is_inputs_embeds (str_lower e) (name t)) inputs)))
      @ map Print (print_group MaskHeader
          (map make_input_info
            (filter (\<lambda>t. \<not> is_inputs_embeds (str_lower e) (name t)
                        \<and> is_attention_mask (str_lower e) (name t)) inputs)))
      @ map Print (print_group PositionHeader
          (map make_input_info
            (filter (\<lambda>t. \<not> is_inputs_embeds (str_lower e) (name t)
                        \<and> \<not> is_attention_mask (str_lower e) (name t)
                        \<and> is_position_ids (str_lower e) (name t)) inputs)))
      @ map Print (print_past_key_values (map make_input_info cache))
      @ map Print (print_group OtherHeader
          (map make_input_info
            (filter (\<lambda>t. \<not> is_inputs_embeds (str_lower e) (name t)
                        \<and> \<not> is_attention_mask (str_lower e) (name t)
                        \<and> \<not> is_position_ids (str_lower e) (name t)
                        \<and> \<not> is_past_key_values (str_lower e) (name t)) inputs)))
      @ [Print BlankRule, Print RuntimeTitle, Print Rule]
      @ runtime_phase e p"
  unfolding analyze_loaded [OF assms(1)] static_report_def Let_def lists_of_classify_inputs
    assms(2)
  by simp

subsection \<open>The recurrent-cache listing (lines 94 to 104)\<close>

lemma take3:
  assumes "3 \<le> length xs"
  shows "take 3 xs = [xs ! 0, xs ! 1, xs ! 2]"
proof -
  have "xs \<noteq> []" using assms by auto
  then show ?thesis
    using assms by (simp add: numeral_3_eq_3 numeral_2_eq_2 take_Suc_conv_app_nth)
qed

lemma drop3:
  assumes "3 \<le> length xs"
  shows "drop (length xs - 3) xs =
           [xs ! (length xs - 3), xs ! (length xs - 2), xs ! (length xs - 1)]"
proof -
  define n where "n = length xs"
  have a: "Suc (n - 3) = n - 2" and b: "Suc (n - 2) = n - 1" and c: "Suc (n - 1) = n"
    using assms by (simp_all add: n_def)
  have "drop (n - 3) xs = xs ! (n - 3) # drop (n - 2) xs"
    using assms a
    by (metis Cons_nth_drop_Suc n_def less_le_trans diff_less numeral_3_eq_3 zero_less_Suc)
  also have "drop (n - 2) xs = xs ! (n - 2) # drop (n - 1) xs"
    using assms b by (metis Cons_nth_drop_Suc n_def lessI c Suc_lessD)
  also have "drop (n - 1) xs = xs ! (n - 1) # drop n xs"
    using assms c by (metis Cons_nth_drop_Suc n_def lessI)
  finally show ?thesis by (simp add: n_def)
qed

lemma cache_listing_long:
  assumes "6 < length cache"
  shows "map Print (print_past_key_values (map make_input_info cache)) =
     [Print (PkvHeader (length cache)),
      Print (Entry (name (cache ! 0)) (shape_str (shape_of (cache ! 0)))),
      Print (Entry (name (cache ! 1)) (shape_str (shape_of (cache ! 1)))),
      Print (Entry (name (cache ! 2)) (shape_str (shape_of (cache ! 2)))),
      Print (Elided (length cache - 6)),
      Print (Entry (name (cache ! (length cache - 3)))
                   (shape_str (shape_of (cache ! (length cache - 3))))),
      Print (Entry (name (cache ! (length cache - 2)))
                   (shape_str (shape_of (cache ! (length cache - 2))))),
      Print (Entry (name (cache ! (length cache - 1)))
                   (shape_str (shape_of (cache ! (length cache - 1)))))]"
proof -
  have ne: "cache \<noteq> []" using assms by auto
  have 3: "3 \<le> length cache" using assms by simp
  show ?thesis
    using assms ne
    by (simp add: print_past_key_values_def first3_def last3_def take_map drop_map
        take3 [OF 3] drop3 [OF 3] entry_make)
qed

text \<open>
  C3. Let the graph load, and let \<open>cache\<close> be the declared inputs that fail the three
  earlier tests and pass the recurrent-cache test, in the order of declaration: they are
  the recurrent-cache category. When there are more than six of them, the run prints,
  between the groups before and the group after, the header with their number, the name
  and shape of the first three, one elision line, and the name and shape of the last
  three; the count on the elision line is their number minus six.
\<close>

theorem past_key_values_listing_elided:
  assumes "onnx_load e p = Inr inputs"
    and "cache =
           filter (\<lambda>t. \<not> is_inputs_embeds (str_lower e) (name t)
                      \<and> \<not> is_attention_mask (str_lower e) (name t)
                      \<and> \<not> is_position_ids (str_lower e) (name t)
                      \<and> is_past_key_values (str_lower e) (name t)) inputs"
    and "6 < length cache"
  shows
    "let l = str_lower e;
         n = length cache;
         line = (\<lambda>t. Print (Entry (name t) (shape_str (shape_of t))));
         group = (\<lambda>h ts. if ts = [] then [] else Print h # map line ts);
         embeds = filter (\<lambda>t. is_inputs_embeds l (name t)) inputs;
         masks = filter (\<lambda>t. \<not> is_inputs_embeds l (name t) \<and> is_attention_mask l (name t))
                   inputs;
         positions =
           filter (\<lambda>t. \<not> is_inputs_embeds l (name t) \<and> \<not> is_attention_mask l (name t)
                      \<and> is_position_ids l (name t)) inputs;
         others =
           filter (\<lambda>t. \<not> is_inputs_embeds l (name t) \<and> \<not> is_attention_mask l (name t)
                      \<and> \<not> is_position_ids l (name t) \<and> \<not> is_past_key_values l (name t))
             inputs
     in past_key_values_inputs (classify_inputs l inputs) = map make_input_info cache
      \<and> analyze_onnx_model e p =
          [Print (Analyzing p), Print Rule, Call_onnx_load p, Print LoadOk,
           Print Rule, Print StaticTitle, Print Rule, Print (InputCount (length inputs))]
          @ group EmbedsHeader embeds @ group MaskHeader masks
          @ group PositionHeader positions
          @ [Print (PkvHeader n),
             line (cache ! 0), line (cache ! 1), line (cache ! 2),
             Print (Elided (n - 6)),
             line (cache ! (n - 3)), line (cache ! (n - 2)), line (cache ! (n - 1))]
          @ group OtherHeader others
          @ [Print BlankRule, Print RuntimeTitle, Print Rule]
          @ runtime_phase e p
      \<and> int (n - 6) = int n - 6"
proof -
  have a: "past_key_values_inputs (classify_inputs (str_lower e) inputs)
             = map make_input_info cache"
    by (simp add: lists_of_classify_inputs assms(2))
  have c: "int (length cache - 6) = int (length cache) - 6"
    using assms(3) by simp
  show ?thesis
    unfolding Let_def
    using a c analyze_static [OF assms(1,2)]
    by (simp only: print_group_make cache_listing_long [OF assms(3)] simp_thms)
qed

theorem past_key_values_listing_elided_witness:
  "analyze_onnx_model (graph_env seven_cache_graph) ''model.onnx'' =
     [Print (Analyzing ''model.onnx''), Print Rule, Call_onnx_load ''model.onnx'', Print LoadOk,
      Print Rule, Print StaticTitle, Print Rule, Print (InputCount 8),
      Print EmbedsHeader, Print (Entry ''inputs_embeds'' embeds_shape_text),
      Print (PkvHeader 7),
      Print (Entry ''past_key_values.0.key'' cache_shape_text),
      Print (Entry ''past_key_values.0.value'' cache_shape_text),
      Print (Entry ''past_key_values.1.key'' cache_shape_text),
      Print (Elided 1),
      Print (Entry ''past_key_values.2.key'' cache_shape_text),
      Print (Entry ''past_key_values.2.value'' cache_shape_text),
      Print (Entry ''past_key_values.3.key'' cache_shape_text),
      Print BlankRule, Print RuntimeTitle, Print Rule,
      Call_InferenceSession ''model.onnx'', Print (InputCount 1),
      Print (RtName ''inputs_embeds''),
      Print (RtShape [DimStr ''batch_size'', DimNone, DimInt 1536, DimInt (- 1)]),
      Print (RtType ''tensor(float)''), Print (RtDynamic [0, 3]), Print Blank]"
proof -
  have 1: "onnx_load (graph_env seven_cache_graph) ''model.onnx'' = Inr seven_cache_graph"
    by (simp add: graph_env_def)
  have 2: "tl seven_cache_graph =
           filter (\<lambda>t. \<not> is_inputs_embeds (str_lower (graph_env seven_cache_graph)) (name t)
                      \<and> \<not> is_attention_mask (str_lower (graph_env seven_cache_graph)) (name t)
                      \<and> \<not> is_position_ids (str_lower (graph_env seven_cache_graph)) (name t)
                      \<and> is_past_key_values (str_lower (graph_env seven_cache_graph)) (name t))
             seven_cache_graph"
    by code_simp
  have 3: "6 < length (tl seven_cache_graph)"
    by (simp add: seven_cache_graph_def)
  note t = past_key_values_listing_elided [OF 1 2 3, unfolded Let_def,
      THEN conjunct2, THEN conjunct1]
  show ?thesis
    by (rule trans [OF t]) code_simp
qed

lemma no_elision_runtime: "Print (Elided k) \<notin> set (runtime_phase e p)"
  by (cases "inference_session e p")
     (auto simp: runtime_phase_def runtime_input_lines_def)

lemma cache_listing_short:
  assumes "1 \<le> length cache" and "length cache \<le> 6"
  shows "map Print (print_past_key_values (map make_input_info cache)) =
     [Print (PkvHeader (length cache))]
     @ map (\<lambda>t. Print (Entry (name t) (shape_str (shape_of t))))
         (take (min 3 (length cache)) cache)
     @ map (\<lambda>t. Print (Entry (name t) (shape_str (shape_of t))))
         (drop (length cache - min 3 (length cache)) cache)"
proof -
  have ne: "cache \<noteq> []" using assms by auto
  have t: "take 3 cache = take (min 3 (length cache)) cache" by (simp add: min_def)
  have d: "length cache - 3 = length cache - min 3 (length cache)" by (simp add: min_def)
  have "map Print (print_past_key_values (map make_input_info cache)) =
     [Print (PkvHeader (length cache))]
     @ map (\<lambda>t. Print (Entry (name t) (shape_str (shape_of t)))) (take 3 cache)
     @ map (\<lambda>t. Print (Entry (name t) (shape_str (shape_of t)))) (drop (length cache - 3) cache)"
    using assms ne
    by (simp add: print_past_key_values_def first3_def last3_def take_map drop_map
        entry_make comp_def)
  then show ?thesis by (simp only: t d)
qed

text \<open>
  C10. Let the graph load, and let \<open>cache\<close> be the declared inputs that fail the three
  earlier tests and pass the recurrent-cache test, in the order of declaration: they are
  the recurrent-cache category. When there are \<open>n\<close> of them with \<open>1 \<le> n \<le> 6\<close>, the run
  prints, between the groups before and the group after, the header with \<open>n\<close>, the name
  and shape of the first \<open>min 3 n\<close> and then of the last \<open>min 3 n\<close>: \<open>2 * min 3 n\<close> entry
  lines. An input whose index lies in both ranges has its line at both places. The run
  prints no elision line.
\<close>

theorem past_key_values_listing_short:
  assumes "onnx_load e p = Inr inputs"
    and "cache =
           filter (\<lambda>t. \<not> is_inputs_embeds (str_lower e) (name t)
                      \<and> \<not> is_attention_mask (str_lower e) (name t)
                      \<and> \<not> is_position_ids (str_lower e) (name t)
                      \<and> is_past_key_values (str_lower e) (name t)) inputs"
    and "1 \<le> length cache" and "length cache \<le> 6"
  shows
    "let l = str_lower e;
         n = length cache;
         m = min 3 n;
         line = (\<lambda>t. Print (Entry (name t) (shape_str (shape_of t))));
         group = (\<lambda>h ts. if ts = [] then [] else Print h # map line ts);
         embeds = filter (\<lambda>t. is_inputs_embeds l (name t)) inputs;
         masks = filter (\<lambda>t. \<not> is_inputs_embeds l (name t) \<and> is_attention_mask l (name t))
                   inputs;
         positions =
           filter (\<lambda>t. \<not> is_inputs_embeds l (name t) \<and> \<not> is_attention_mask l (name t)
                      \<and> is_position_ids l (name t)) inputs;
         others =
           filter (\<lambda>t. \<not> is_inputs_embeds l (name t) \<and> \<not> is_attention_mask l (name t)
                      \<and> \<not> is_position_ids l (name t) \<and> \<not> is_past_key_values l (name t))
             inputs;
         first_lines = map line (take m cache);
         last_lines = map line (drop (n - m) cache)
     in past_key_values_inputs (classify_inputs l inputs) = map make_input_info cache
      \<and> analyze_onnx_model e p =
          [Print (Analyzing p), Print Rule, Call_onnx_load p, Print LoadOk,
           Print Rule, Print StaticTitle, Print Rule, Print (InputCount (length inputs))]
          @ group EmbedsHeader embeds @ group MaskHeader masks
          @ group PositionHeader positions
          @ [Print (PkvHeader n)] @ first_lines @ last_lines
          @ group OtherHeader others
          @ [Print BlankRule, Print RuntimeTitle, Print Rule]
          @ runtime_phase e p
      \<and> length (first_lines @ last_lines) = 2 * m
      \<and> (\<forall>i. i < m \<and> n - m \<le> i \<longrightarrow>
            first_lines ! i = line (cache ! i) \<and> last_lines ! (i - (n - m)) = line (cache ! i))
      \<and> (\<forall>k. Print (Elided k) \<notin> set (analyze_onnx_model e p))"
proof -
  define n where "n = length cache"
  define m where "m = min 3 n"
  define line where "line = (\<lambda>t. Print (Entry (name t) (shape_str (shape_of t))))"
  have a: "past_key_values_inputs (classify_inputs (str_lower e) inputs)
             = map make_input_info cache"
    by (simp add: lists_of_classify_inputs assms(2))
  have run: "analyze_onnx_model e p =
      [Print (Analyzing p), Print Rule, Call_onnx_load p, Print LoadOk,
       Print Rule, Print StaticTitle, Print Rule, Print (InputCount (length inputs))]
      @ (if filter (\<lambda>t. is_inputs_embeds (str_lower e) (name t)) inputs = [] then []
         else Print EmbedsHeader
              # map line (filter (\<lambda>t. is_inputs_embeds (str_lower e) (name t)) inputs))
      @ (if filter (\<lambda>t. \<not> is_inputs_embeds (str_lower e) (name t)
                        \<and> is_attention_mask (str_lower e) (name t)) inputs = [] then []
         else Print MaskHeader
              # map line (filter (\<lambda>t. \<not> is_inputs_embeds (str_lower e) (name t)
                        \<and> is_attention_mask (str_lower e) (name t)) inputs))
      @ (if filter (\<lambda>t. \<not> is_inputs_embeds (str_lower e) (name t)
                        \<and> \<not> is_attention_mask (str_lower e) (name t)
                        \<and> is_position_ids (str_lower e) (name t)) inputs = [] then []
         else Print PositionHeader
              # map line (filter (\<lambda>t. \<not> is_inputs_embeds (str_lower e) (name t)
                        \<and> \<not> is_attention_mask (str_lower e) (name t)
                        \<and> is_position_ids (str_lower e) (name t)) inputs))
      @ [Print (PkvHeader n)] @ map line (take m cache) @ map line (drop (n - m) cache)
      @ (if filter (\<lambda>t. \<not> is_inputs_embeds (str_lower e) (name t)
                        \<and> \<not> is_attention_mask (str_lower e) (name t)
                        \<and> \<not> is_position_ids (str_lower e) (name t)
                        \<and> \<not> is_past_key_values (str_lower e) (name t)) inputs = [] then []
         else Print OtherHeader
              # map line (filter (\<lambda>t. \<not> is_inputs_embeds (str_lower e) (name t)
                        \<and> \<not> is_attention_mask (str_lower e) (name t)
                        \<and> \<not> is_position_ids (str_lower e) (name t)
                        \<and> \<not> is_past_key_values (str_lower e) (name t)) inputs))
      @ [Print BlankRule, Print RuntimeTitle, Print Rule]
      @ runtime_phase e p"
    unfolding n_def m_def line_def
    using analyze_static [OF assms(1,2)]
    by (simp only: print_group_make cache_listing_short [OF assms(3,4)] append_assoc)
  have lt: "length (take m cache) = m" by (simp add: m_def n_def)
  have ld: "length (drop (n - m) cache) = m" by (simp add: m_def n_def)
  have c: "length (map line (take m cache) @ map line (drop (n - m) cache)) = 2 * m"
    using lt ld by simp
  have d: "map line (take m cache) ! i = line (cache ! i)
         \<and> map line (drop (n - m) cache) ! (i - (n - m)) = line (cache ! i)"
    if "i < m" "n - m \<le> i" for i
  proof -
    have il: "i < length cache" using that(1) by (simp add: m_def n_def)
    have j: "i - (n - m) < m" using that by simp
    have 1: "map line (take m cache) ! i = line (cache ! i)"
      using that(1) il lt by simp
    have "n - m + (i - (n - m)) = i" using that(2) by simp
    then have 2: "map line (drop (n - m) cache) ! (i - (n - m)) = line (cache ! i)"
      using j ld il by (simp add: n_def)
    show ?thesis using 1 2 by simp
  qed
  have g: "Print (Elided k) \<notin> set (if ts = [] then [] else Print h # map line ts)"
    if "h \<noteq> Elided k" for k h ts
    using that by (auto simp: line_def)
  have f: "Print (Elided k) \<notin> set (analyze_onnx_model e p)" for k
    unfolding run
    using no_elision_runtime [of k e p]
      g [of EmbedsHeader k] g [of MaskHeader k] g [of PositionHeader k] g [of OtherHeader k]
    by (auto simp: line_def)
  show ?thesis
    unfolding Let_def
    using a run c d f
    unfolding n_def m_def line_def
    by blast
qed

theorem past_key_values_listing_short_witness:
  "analyze_onnx_model (graph_env four_cache_graph) ''model.onnx'' =
     [Print (Analyzing ''model.onnx''), Print Rule, Call_onnx_load ''model.onnx'', Print LoadOk,
      Print Rule, Print StaticTitle, Print Rule, Print (InputCount 5),
      Print EmbedsHeader, Print (Entry ''inputs_embeds'' embeds_shape_text),
      Print (PkvHeader 4),
      Print (Entry ''past_key_values.0.key'' cache_shape_text),
      Print (Entry ''past_key_values.0.value'' cache_shape_text),
      Print (Entry ''past_key_values.1.key'' cache_shape_text),
      Print (Entry ''past_key_values.0.value'' cache_shape_text),
      Print (Entry ''past_key_values.1.key'' cache_shape_text),
      Print (Entry ''past_key_values.1.value'' cache_shape_text),
      Print BlankRule, Print RuntimeTitle, Print Rule,
      Call_InferenceSession ''model.onnx'', Print (InputCount 1),
      Print (RtName ''inputs_embeds''),
      Print (RtShape [DimStr ''batch_size'', DimNone, DimInt 1536, DimInt (- 1)]),
      Print (RtType ''tensor(float)''), Print (RtDynamic [0, 3]), Print Blank]"
proof -
  have 1: "onnx_load (graph_env four_cache_graph) ''model.onnx'' = Inr four_cache_graph"
    by (simp add: graph_env_def)
  have 2: "tl four_cache_graph =
           filter (\<lambda>t. \<not> is_inputs_embeds (str_lower (graph_env four_cache_graph)) (name t)
                      \<and> \<not> is_attention_mask (str_lower (graph_env four_cache_graph)) (name t)
                      \<and> \<not> is_position_ids (str_lower (graph_env four_cache_graph)) (name t)
                      \<and> is_past_key_values (str_lower (graph_env four_cache_graph)) (name t))
             four_cache_graph"
    by code_simp
  have 3: "1 \<le> length (tl four_cache_graph)" and 4: "length (tl four_cache_graph) \<le> 6"
    by (simp_all add: four_cache_graph_def)
  note t = past_key_values_listing_short [OF 1 2 3 4, unfolded Let_def,
      THEN conjunct2, THEN conjunct1]
  show ?thesis
    by (rule trans [OF t]) code_simp
qed

subsection \<open>Display shapes (line 55)\<close>

text \<open>
  C6. The display shape of a declared input has one element for each declared dimension.
  The element is the integer \<open>dim_value\<close> when \<open>dim_value > 0\<close>; otherwise the name
  \<open>dim_param\<close> when that is not empty; otherwise \<open>-1\<close>.
\<close>

theorem display_shape_elements:
  assumes "i < length (dim input_tensor)"
  shows "length (info_shape (make_input_info input_tensor)) = length (dim input_tensor)
       \<and> (dim_value (dim input_tensor ! i) > 0 \<longrightarrow>
            info_shape (make_input_info input_tensor) ! i = PyInt (dim_value (dim input_tensor ! i)))
       \<and> (\<not> dim_value (dim input_tensor ! i) > 0 \<and> dim_param (dim input_tensor ! i) \<noteq> [] \<longrightarrow>
            info_shape (make_input_info input_tensor) ! i = PyStr (dim_param (dim input_tensor ! i)))
       \<and> (\<not> dim_value (dim input_tensor ! i) > 0 \<and> dim_param (dim input_tensor ! i) = [] \<longrightarrow>
            info_shape (make_input_info input_tensor) ! i = PyInt (- 1))"
  using assms by (simp add: make_input_info_def shape_of_def shape_elem_of_def)

theorem display_shape_elements_witness:
  "info_shape (make_input_info sample_input) ! 0 = PyStr ''batch_size''
   \<and> info_shape (make_input_info sample_input) ! 1 = PyInt (- 1)
   \<and> info_shape (make_input_info sample_input) ! 2 = PyInt 1536
   \<and> length (info_shape (make_input_info sample_input)) = 3"
proof -
  have d: "dim sample_input = [\<lparr> dim_value = 0, dim_param = ''batch_size'' \<rparr>,
              \<lparr> dim_value = 0, dim_param = [] \<rparr>,
              \<lparr> dim_value = 1536, dim_param = [] \<rparr>]"
    by (simp add: sample_input_def)
  have 0: "0 < length (dim sample_input)" and 1: "1 < length (dim sample_input)"
    and 2: "2 < length (dim sample_input)"
    by (simp_all add: d)
  show ?thesis
    using display_shape_elements [OF 0] display_shape_elements [OF 1]
      display_shape_elements [OF 2]
    by (simp add: d)
qed

subsection \<open>Dynamic dimensions in the runtime listing (lines 122 to 135)\<close>

lemma enumerate_filter_fst:
  "map fst (filter (\<lambda>(i, d). P d) (enumerate k xs))
     = filter (\<lambda>i. P (xs ! (i - k))) [k..<k + length xs]"
proof (induction xs arbitrary: k)
  case Nil
  then show ?case by simp
next
  case (Cons x xs)
  have h: "P ((x # xs) ! (k - k)) = P x"
    by simp
  have e: "k + length (x # xs) = Suc k + length xs"
    by simp
  have u: "[k..<Suc k + length xs] = k # [Suc k..<Suc k + length xs]"
    by (rule upt_conv_Cons) simp
  have f: "filter (\<lambda>i. P ((x # xs) ! (i - k))) [Suc k..<Suc k + length xs]
          = filter (\<lambda>i. P (xs ! (i - Suc k))) [Suc k..<Suc k + length xs]"
    by (rule filter_cong) (auto simp: nth_Cons')
  have "map fst (filter (\<lambda>(i, d). P d) (enumerate k (x # xs)))
          = (if P x then [k] else []) @ map fst (filter (\<lambda>(i, d). P d) (enumerate (Suc k) xs))"
    by simp
  also have "\<dots> = (if P x then [k] else [])
                   @ filter (\<lambda>i. P (xs ! (i - Suc k))) [Suc k..<Suc k + length xs]"
    by (simp only: Cons.IH)
  also have "\<dots> = filter (\<lambda>i. P ((x # xs) ! (i - k))) (k # [Suc k..<Suc k + length xs])"
    by (cases "P x") (simp_all only: filter.simps f h if_True if_False append_Cons append_Nil)
  finally show ?case by (simp only: e u)
qed

lemma is_dynamic_iff:
  "is_dynamic d \<longleftrightarrow> (\<exists>s. d = DimStr s) \<or> (\<exists>n. d = DimInt n \<and> n < 0)"
  by (cases d) (simp_all add: is_dynamic_def is_str_def is_int_def int_of_def)

lemma dynamic_dims_eq:
  "dynamic_dims shape =
     filter (\<lambda>i. (\<exists>s. shape ! i = DimStr s) \<or> (\<exists>n. shape ! i = DimInt n \<and> n < 0))
       [0..<length shape]"
  unfolding dynamic_dims_def enumerate_filter_fst by (simp add: is_dynamic_iff)

lemma runtime_phase_listed:
  assumes "inference_session e p = Inr metas"
  shows "runtime_phase e p =
     [Call_InferenceSession p, Print (InputCount (length metas))]
     @ concat (map (\<lambda>input_meta.
         [Print (RtName (arg_name input_meta)), Print (RtShape (arg_shape input_meta)),
          Print (RtType (arg_type input_meta))]
         @ (if dynamic_dims (arg_shape input_meta) = [] then []
            else [Print (RtDynamic (dynamic_dims (arg_shape input_meta)))])
         @ [Print Blank]) metas)"
proof -
  have "map Print (concat (map runtime_input_lines ms)) =
     concat (map (\<lambda>input_meta.
         [Print (RtName (arg_name input_meta)), Print (RtShape (arg_shape input_meta)),
          Print (RtType (arg_type input_meta))]
         @ (if dynamic_dims (arg_shape input_meta) = [] then []
            else [Print (RtDynamic (dynamic_dims (arg_shape input_meta)))])
         @ [Print Blank]) ms)" for ms
    by (induction ms) (simp_all add: runtime_input_lines_def)
  then show ?thesis
    using assms by (simp add: runtime_phase_def)
qed

text \<open>
  C7. Let the graph load and the runtime session open, reporting the inputs \<open>metas\<close>.
  After the static listing, the run opens the session, prints the number of reported
  inputs and then, for every reported input in order, its name, shape and type, a line
  with the dynamic indices when there is at least one, and a blank line. The dynamic
  indices of a shape are the positions, in increasing order, of exactly the dimensions
  that are a string or a negative integer; a dimension that is \<open>None\<close> is neither.
\<close>

theorem dynamic_dimension_indices:
  assumes "onnx_load e p = Inr inputs" and "inference_session e p = Inr metas"
  shows
    "let dynamic = (\<lambda>shape.
           filter (\<lambda>i. (\<exists>s. shape ! i = DimStr s) \<or> (\<exists>n. shape ! i = DimInt n \<and> n < 0))
             [0..<length shape])
     in analyze_onnx_model e p =
          [Print (Analyzing p), Print Rule, Call_onnx_load p, Print LoadOk]
          @ map Print (static_report (str_lower e) inputs)
          @ [Print BlankRule, Print RuntimeTitle, Print Rule,
             Call_InferenceSession p, Print (InputCount (length metas))]
          @ concat (map (\<lambda>input_meta.
              [Print (RtName (arg_name input_meta)), Print (RtShape (arg_shape input_meta)),
               Print (RtType (arg_type input_meta))]
              @ (if dynamic (arg_shape input_meta) = [] then []
                 else [Print (RtDynamic (dynamic (arg_shape input_meta)))])
              @ [Print Blank]) metas)
      \<and> (\<forall>input_meta\<in>set metas.
            dynamic_dims (arg_shape input_meta) = dynamic (arg_shape input_meta)
          \<and> sorted_wrt (<) (dynamic (arg_shape input_meta)))"
proof -
  have s: "sorted_wrt (<) (filter P [0..<k])" for P :: "nat \<Rightarrow> bool" and k
    by (rule sorted_wrt_filter) (rule sorted_wrt_upt)
  note r = runtime_phase_listed [OF assms(2), unfolded dynamic_dims_eq]
  have run: "analyze_onnx_model e p =
          [Print (Analyzing p), Print Rule, Call_onnx_load p, Print LoadOk]
          @ map Print (static_report (str_lower e) inputs)
          @ [Print BlankRule, Print RuntimeTitle, Print Rule,
             Call_InferenceSession p, Print (InputCount (length metas))]
          @ concat (map (\<lambda>input_meta.
              [Print (RtName (arg_name input_meta)), Print (RtShape (arg_shape input_meta)),
               Print (RtType (arg_type input_meta))]
              @ (if filter (\<lambda>i. (\<exists>s. arg_shape input_meta ! i = DimStr s)
                                \<or> (\<exists>n. arg_shape input_meta ! i = DimInt n \<and> n < 0))
                      [0..<length (arg_shape input_meta)] = [] then []
                 else [Print (RtDynamic
                         (filter (\<lambda>i. (\<exists>s. arg_shape input_meta ! i = DimStr s)
                                      \<or> (\<exists>n. arg_shape input_meta ! i = DimInt n \<and> n < 0))
                            [0..<length (arg_shape input_meta)]))])
              @ [Print Blank]) metas)"
    unfolding analyze_loaded [OF assms(1)] r by simp
  have rest: "\<forall>input_meta\<in>set metas.
      dynamic_dims (arg_shape input_meta)
        = filter (\<lambda>i. (\<exists>s. arg_shape input_meta ! i = DimStr s)
                     \<or> (\<exists>n. arg_shape input_meta ! i = DimInt n \<and> n < 0))
            [0..<length (arg_shape input_meta)]
      \<and> sorted_wrt (<)
          (filter (\<lambda>i. (\<exists>s. arg_shape input_meta ! i = DimStr s)
                      \<or> (\<exists>n. arg_shape input_meta ! i = DimInt n \<and> n < 0))
             [0..<length (arg_shape input_meta)])"
    using s by (simp add: dynamic_dims_eq)
  show ?thesis
    unfolding Let_def using run rest by blast
qed

theorem dynamic_dimension_indices_witness:
  "analyze_onnx_model good_env ''model.onnx'' =
     [Print (Analyzing ''model.onnx''), Print Rule, Call_onnx_load ''model.onnx'', Print LoadOk,
      Print Rule, Print StaticTitle, Print Rule, Print (InputCount 1),
      Print EmbedsHeader, Print (Entry ''inputs_embeds'' embeds_shape_text),
      Print BlankRule, Print RuntimeTitle, Print Rule,
      Call_InferenceSession ''model.onnx'', Print (InputCount 1),
      Print (RtName ''inputs_embeds''),
      Print (RtShape [DimStr ''batch_size'', DimNone, DimInt 1536, DimInt (- 1)]),
      Print (RtType ''tensor(float)''), Print (RtDynamic [0, 3]), Print Blank]"
proof -
  have 1: "onnx_load good_env ''model.onnx'' = Inr [sample_input]"
    by (simp add: good_env_def graph_env_def)
  have 2: "inference_session good_env ''model.onnx'' = Inr [sample_node_arg]"
    by (simp add: good_env_def graph_env_def)
  have d: "filter (\<lambda>i. (\<exists>s. arg_shape sample_node_arg ! i = DimStr s)
                     \<or> (\<exists>n. arg_shape sample_node_arg ! i = DimInt n \<and> n < 0))
             [0..<length (arg_shape sample_node_arg)] = [0, 3]"
    by (simp add: sample_node_arg_def upt_rec numeral_3_eq_3 numeral_2_eq_2)
  have st: "static_report (str_lower good_env) [sample_input] =
     [Rule, StaticTitle, Rule, InputCount 1,
      EmbedsHeader, Entry ''inputs_embeds'' embeds_shape_text]"
    by code_simp
  note t = dynamic_dimension_indices [OF 1 2, unfolded Let_def, THEN conjunct1]
  show ?thesis
    using t by (simp add: d st sample_node_arg_def)
qed

subsection \<open>The two phases of \<open>analyze_onnx_model\<close>\<close>

lemma runtime_phase_call: "Call_InferenceSession p \<in> set (runtime_phase e p)"
  by (simp add: runtime_phase_def)

text \<open>
  C2, as the code has it. The static load is always attempted. A failure of the static
  load is caught and reported, and the analysis ends there: the runtime session is opened
  exactly when the static load succeeded. A failure of the runtime session is caught and
  reported after the complete static listing.
\<close>

theorem analysis_phases:
  "Call_onnx_load p \<in> set (analyze_onnx_model e p)
   \<and> (Call_InferenceSession p \<in> set (analyze_onnx_model e p)
        \<longleftrightarrow> (\<exists>inputs. onnx_load e p = Inr inputs))
   \<and> (onnx_load e p = Inl ex \<longrightarrow>
        analyze_onnx_model e p
          = [Print (Analyzing p), Print Rule, Call_onnx_load p, Print (LoadFailed ex)])
   \<and> (onnx_load e p = Inr inputs \<and> inference_session e p = Inl ex' \<longrightarrow>
        analyze_onnx_model e p
          = [Print (Analyzing p), Print Rule, Call_onnx_load p, Print LoadOk]
            @ map Print (static_report (str_lower e) inputs)
            @ [Print BlankRule, Print RuntimeTitle, Print Rule, Call_InferenceSession p,
               Print (SessionFailed ex'), Print SessionHint1, Print SessionHint2])"
proof -
  have a: "Call_onnx_load p \<in> set (analyze_onnx_model e p)"
    by (simp add: analyze_onnx_model_def)
  have b: "Call_InferenceSession p \<in> set (analyze_onnx_model e p)
        \<longleftrightarrow> (\<exists>inputs. onnx_load e p = Inr inputs)"
  proof (cases "onnx_load e p")
    case (Inl x)
    then show ?thesis by (simp add: analyze_onnx_model_def)
  next
    case (Inr inputs)
    then show ?thesis by (simp add: analyze_onnx_model_def runtime_phase_call)
  qed
  have c: "analyze_onnx_model e p
          = [Print (Analyzing p), Print Rule, Call_onnx_load p, Print (LoadFailed ex)]"
    if "onnx_load e p = Inl ex"
    using that by (simp add: analyze_onnx_model_def)
  have d: "analyze_onnx_model e p
          = [Print (Analyzing p), Print Rule, Call_onnx_load p, Print LoadOk]
            @ map Print (static_report (str_lower e) inputs)
            @ [Print BlankRule, Print RuntimeTitle, Print Rule, Call_InferenceSession p,
               Print (SessionFailed ex'), Print SessionHint1, Print SessionHint2]"
    if "onnx_load e p = Inr inputs" "inference_session e p = Inl ex'"
    using that by (simp add: analyze_onnx_model_def runtime_phase_def)
  show ?thesis using a b c d by blast
qed

theorem analysis_phases_witness:
  "analyze_onnx_model static_fails_env ''model.onnx''
     = [Print (Analyzing ''model.onnx''), Print Rule, Call_onnx_load ''model.onnx'',
        Print (LoadFailed ''Error parsing message'')]
   \<and> analyze_onnx_model runtime_fails_env ''model.onnx''
     = [Print (Analyzing ''model.onnx''), Print Rule, Call_onnx_load ''model.onnx'', Print LoadOk]
       @ map Print (static_report ascii_lower [sample_input])
       @ [Print BlankRule, Print RuntimeTitle, Print Rule, Call_InferenceSession ''model.onnx'',
          Print (SessionFailed ''CPUExecutionProvider is not available''),
          Print SessionHint1, Print SessionHint2]
   \<and> Call_InferenceSession ''model.onnx'' \<in> set (analyze_onnx_model good_env ''model.onnx'')"
proof -
  have 1: "onnx_load static_fails_env ''model.onnx'' = Inl ''Error parsing message''"
    by (simp add: static_fails_env_def)
  have 2: "onnx_load runtime_fails_env ''model.onnx'' = Inr [sample_input]
         \<and> inference_session runtime_fails_env ''model.onnx''
             = Inl ''CPUExecutionProvider is not available''"
    by (simp add: runtime_fails_env_def)
  have 3: "\<exists>inputs. onnx_load good_env ''model.onnx'' = Inr inputs"
    by (simp add: good_env_def graph_env_def)
  note t1 = analysis_phases [of "''model.onnx''" static_fails_env "''Error parsing message''",
      THEN conjunct2, THEN conjunct2, THEN conjunct1, rule_format, OF 1]
  have l: "str_lower runtime_fails_env = ascii_lower"
    by (simp add: runtime_fails_env_def)
  note t2 = analysis_phases [of "''model.onnx''" runtime_fails_env _ "[sample_input]"
      "''CPUExecutionProvider is not available''",
      THEN conjunct2, THEN conjunct2, THEN conjunct2, rule_format, OF 2, unfolded l]
  note t3 = analysis_phases [of "''model.onnx''" good_env, THEN conjunct2, THEN conjunct1]
  have t3': "Call_InferenceSession ''model.onnx'' \<in> set (analyze_onnx_model good_env ''model.onnx'')"
    using t3 3 by blast
  show ?thesis by (intro conjI t1 t2 t3')
qed

text \<open>
  C2 as stated fails: for a file the static parser rejects and the runtime would open,
  the runtime session is never opened.
\<close>

theorem static_failure_skips_runtime_counterexample:
  "onnx_load static_fails_env ''model.onnx'' = Inl ''Error parsing message''
   \<and> inference_session static_fails_env ''model.onnx'' = Inr [sample_node_arg]
   \<and> Call_InferenceSession ''model.onnx''
       \<notin> set (analyze_onnx_model static_fails_env ''model.onnx'')"
  by (simp add: static_fails_env_def analyze_onnx_model_def)

subsection \<open>\<open>main\<close>: a model file that does not exist\<close>

lemma find_none: "(\<forall>x\<in>set xs. \<not> P x) \<Longrightarrow> find P xs = None"
  by (induction xs) auto

text \<open>
  C8. With a path argument that does not exist, \<open>main\<close> prints the error and exits with
  status 1. With no argument and no candidate path that exists, it prints the guidance
  and exits with status 1. A run that exits with status 1 has made no call to the static
  parser or to the runtime.
\<close>

theorem main_missing_model:
  "(\<not> path_exists e a \<longrightarrow> main e argv0 (a # rest) = ([Print (Missing a)], Some 1))
   \<and> ((\<forall>p\<in>set possible_paths. \<not> path_exists e p) \<longrightarrow>
        main e argv0 []
          = (map Print ([NoModelFound, UsageIntro, Usage argv0, PlacesIntro]
                        @ map Place possible_paths),
             Some 1))
   \<and> (snd (main e argv0 args) = Some 1 \<longrightarrow> list_all is_print (fst (main e argv0 args)))"
proof -
  have a: "main e argv0 (a # rest) = ([Print (Missing a)], Some 1)" if "\<not> path_exists e a"
    using that by (simp add: main_def check_and_analyze_def)
  have b: "main e argv0 []
          = (map Print ([NoModelFound, UsageIntro, Usage argv0, PlacesIntro]
                        @ map Place possible_paths),
             Some 1)"
    if "\<forall>p\<in>set possible_paths. \<not> path_exists e p"
    using find_none [OF that] by (simp add: main_def)
  have c: "list_all is_print (fst (main e argv0 args))" if "snd (main e argv0 args) = Some 1"
    using that
    by (auto simp: main_def check_and_analyze_def is_print_def list_all_iff
        split: list.splits option.splits if_splits)
  show ?thesis using a b c by blast
qed

theorem main_missing_model_witness:
  "main no_file_env ''check_onnx_inputs.py'' [''missing.onnx'']
     = ([Print (Missing ''missing.onnx'')], Some 1)
   \<and> main no_file_env ''check_onnx_inputs.py'' []
     = (map Print ([NoModelFound, UsageIntro, Usage ''check_onnx_inputs.py'', PlacesIntro]
                   @ map Place possible_paths),
        Some 1)
   \<and> list_all is_print (fst (main no_file_env ''check_onnx_inputs.py'' []))"
proof -
  have 1: "\<not> path_exists no_file_env ''missing.onnx''"
    by (simp add: no_file_env_def)
  have 2: "\<forall>p\<in>set possible_paths. \<not> path_exists no_file_env p"
    by (simp add: no_file_env_def)
  note t = main_missing_model [of no_file_env]
  have a: "main no_file_env ''check_onnx_inputs.py'' [''missing.onnx'']
     = ([Print (Missing ''missing.onnx'')], Some 1)"
    using t [of "''missing.onnx''" "''check_onnx_inputs.py''" "[]", THEN conjunct1] 1 by blast
  have b: "main no_file_env ''check_onnx_inputs.py'' []
     = (map Print ([NoModelFound, UsageIntro, Usage ''check_onnx_inputs.py'', PlacesIntro]
                   @ map Place possible_paths),
        Some 1)"
    using t [of _ "''check_onnx_inputs.py''", THEN conjunct2, THEN conjunct1] 2 by blast
  have c: "list_all is_print (fst (main no_file_env ''check_onnx_inputs.py'' []))"
    using t [of _ "''check_onnx_inputs.py''" _ "[]", THEN conjunct2, THEN conjunct2] b by simp
  show ?thesis by (intro conjI a b c)
qed

section \<open>Properties of the fetcher\<close>

lemma required_files_eq:
  "required_files =
     [''config.json'', ''preprocessor_config.json'', ''tokenizer.json'',
      ''onnx/decoder_model_merged_q4f16.onnx'', ''onnx/vision_encoder_q4f16.onnx'',
      ''onnx/embed_tokens_q4f16.onnx'']"
  by (simp add: required_files_def decoder_file_def vision_encoder_file_def embed_tokens_file_def)

lemma length_required_files: "length required_files = 6"
  by (simp add: required_files_eq)

lemma requested_append: "requested (xs @ ys) = requested xs @ requested ys"
  by (induction xs rule: requested.induct) simp_all

lemma requested_Say: "requested (map Say ls) = []"
  by (induction ls) simp_all

lemma requested_Say_map: "requested (map (\<lambda>x. Say (g x)) xs) = []"
  by (induction xs) simp_all

lemma requested_file_events: "requested (concat (map (file_events h) fs)) = fs"
  by (induction fs) (simp_all add: file_events_def)

lemma requested_intro: "requested (intro_events h) = []"
  by (simp add: intro_events_def)

text \<open>The first loop, when every file is retrieved.\<close>

lemma download_loop_ok:
  assumes "\<forall>f\<in>set fs. \<exists>n. serve h f = Inr n"
  shows "\<exists>d'. download_loop h fs acc d
                 = (concat (map (file_events h) fs), Inr (acc @ map (local_file h) fs), d')
             \<and> (\<forall>p. d p \<noteq> None \<longrightarrow> d' p \<noteq> None)
             \<and> (\<forall>f\<in>set fs. d' (local_file h f) \<noteq> None)"
  using assms
proof (induction fs arbitrary: acc d)
  case Nil
  then show ?case by simp
next
  case (Cons f fs)
  from Cons.prems obtain n where n: "serve h f = Inr n" by auto
  define d1 where "d1 = d(local_file h f \<mapsto> n)"
  have dl: "hf_hub_download h f d = (Inr (local_file h f), d1)"
    by (simp add: hf_hub_download_def n d1_def)
  from Cons.prems have "\<forall>g\<in>set fs. \<exists>n. serve h g = Inr n" by simp
  from Cons.IH [OF this, of "acc @ [local_file h f]" d1]
  obtain d' where d':
    "download_loop h fs (acc @ [local_file h f]) d1
       = (concat (map (file_events h) fs), Inr ((acc @ [local_file h f]) @ map (local_file h) fs), d')"
    "\<forall>p. d1 p \<noteq> None \<longrightarrow> d' p \<noteq> None"
    "\<forall>g\<in>set fs. d' (local_file h g) \<noteq> None"
    by blast
  have 1: "download_loop h (f # fs) acc d
             = (concat (map (file_events h) (f # fs)), Inr (acc @ map (local_file h) (f # fs)), d')"
    using file_events_def [of h f] by (simp add: dl d'(1))
  have 2: "\<forall>p. d p \<noteq> None \<longrightarrow> d' p \<noteq> None"
    using d'(2) by (auto simp: d1_def)
  have "d1 (local_file h f) \<noteq> None" by (simp add: d1_def)
  then have 3: "\<forall>g\<in>set (f # fs). d' (local_file h g) \<noteq> None"
    using d'(2,3) by auto
  show ?case using 1 2 3 by blast
qed

text \<open>The first loop, when a file is not retrieved: nothing after it is requested.\<close>

lemma download_loop_fail:
  assumes "\<forall>f\<in>set pre. \<exists>n. serve h f = Inr n" and "serve h f = Inl ex"
  shows "\<exists>d'. download_loop h (pre @ f # post) acc d
                 = (concat (map (file_events h) pre) @ [Say (Downloading f), Request f], Inl ex, d')"
  using assms(1)
proof (induction pre arbitrary: acc d)
  case Nil
  then show ?case by (simp add: hf_hub_download_def assms(2))
next
  case (Cons g pre)
  from Cons.prems obtain n where n: "serve h g = Inr n" by auto
  have dl: "hf_hub_download h g d = (Inr (local_file h g), d(local_file h g \<mapsto> n))"
    by (simp add: hf_hub_download_def n)
  from Cons.prems have "\<forall>f\<in>set pre. \<exists>n. serve h f = Inr n" by simp
  from Cons.IH [OF this, of "acc @ [local_file h g]" "d(local_file h g \<mapsto> n)"]
  obtain d' where
    "download_loop h (pre @ f # post) (acc @ [local_file h g]) (d(local_file h g \<mapsto> n))
       = (concat (map (file_events h) pre) @ [Say (Downloading f), Request f], Inl ex, d')"
    by blast
  moreover have "file_events h g
      = [Say (Downloading g), Request g, Say (Completed (basename h (local_file h g)))]"
    by (simp add: file_events_def)
  ultimately show ?case by (simp add: dl)
qed

text \<open>The second loop, when every file is on the disk.\<close>

lemma report_loop_ok:
  assumes "\<forall>p\<in>set ps. d p \<noteq> None"
  shows "report_loop h d ps = (map (\<lambda>p. Say (FileSize (basename h p) (the (d p)))) ps, Inr ())"
  using assms by (induction ps) (auto simp: getsize_def)

lemma intro_eq:
  "(if u \<or> True then [Say VariantBanner, Say VariantNote] else [])
     @ [Say (Starting repo_id), Say (SaveDir (abspath h local_dir)),
        Say (FileCount (length required_files)), Say Patience] = intro_events h"
  by (simp add: intro_events_def length_required_files)

lemma download_model_body_ok:
  assumes "\<forall>f\<in>set required_files. \<exists>n. serve h f = Inr n"
  shows "\<exists>d'. download_model_body h u d =
           (intro_events h @ concat (map (file_events h) required_files)
            @ [Say AllCompleted, Say (FilesAt (abspath h local_dir)), Say DownloadedHeader]
            @ map (\<lambda>f. Say (FileSize (basename h (local_file h f)) (the (d' (local_file h f)))))
                required_files,
            True, d')
         \<and> (\<forall>f\<in>set required_files. d' (local_file h f) \<noteq> None)"
proof -
  from download_loop_ok [OF assms, of "[]" d]
  obtain d' where d':
    "download_loop h required_files [] d
       = (concat (map (file_events h) required_files), Inr (map (local_file h) required_files), d')"
    "\<forall>f\<in>set required_files. d' (local_file h f) \<noteq> None"
    by auto
  have "\<forall>p\<in>set (map (local_file h) required_files). d' p \<noteq> None"
    using d'(2) by auto
  from report_loop_ok [OF this]
  have r: "report_loop h d' (map (local_file h) required_files)
         = (map (\<lambda>f. Say (FileSize (basename h (local_file h f)) (the (d' (local_file h f)))))
              required_files, Inr ())"
    by (simp add: comp_def)
  have "download_model_body h u d =
           (intro_events h @ concat (map (file_events h) required_files)
            @ [Say AllCompleted, Say (FilesAt (abspath h local_dir)), Say DownloadedHeader]
            @ map (\<lambda>f. Say (FileSize (basename h (local_file h f)) (the (d' (local_file h f)))))
                required_files,
            True, d')"
    unfolding download_model_body_def Let_def intro_eq by (simp add: d'(1) r)
  with d'(2) show ?thesis by blast
qed

lemma download_model_body_fail:
  assumes "k < length required_files"
    and "\<forall>i<k. \<exists>n. serve h (required_files ! i) = Inr n"
    and "serve h (required_files ! k) = Inl ex"
  shows "\<exists>d'. download_model_body h u d =
           (intro_events h @ concat (map (file_events h) (take k required_files))
            @ [Say (Downloading (required_files ! k)), Request (required_files ! k),
               Say (DownloadFailed ex)],
            False, d')"
proof -
  have split: "required_files = take k required_files @ required_files ! k # drop (Suc k) required_files"
    using assms(1) by (rule id_take_nth_drop)
  have pre: "\<forall>f\<in>set (take k required_files). \<exists>n. serve h f = Inr n"
    using assms(1,2) by (auto simp: in_set_conv_nth)
  from download_loop_fail [OF pre assms(3), of "drop (Suc k) required_files" "[]" d]
  obtain d' where
    "download_loop h (take k required_files @ required_files ! k # drop (Suc k) required_files) [] d
       = (concat (map (file_events h) (take k required_files))
          @ [Say (Downloading (required_files ! k)), Request (required_files ! k)], Inl ex, d')"
    by blast
  then have l: "download_loop h required_files [] d
       = (concat (map (file_events h) (take k required_files))
          @ [Say (Downloading (required_files ! k)), Request (required_files ! k)], Inl ex, d')"
    using split by simp
  have "download_model_body h u d =
           (intro_events h @ concat (map (file_events h) (take k required_files))
            @ [Say (Downloading (required_files ! k)), Request (required_files ! k),
               Say (DownloadFailed ex)],
            False, d')"
    unfolding download_model_body_def Let_def intro_eq by (simp add: l)
  then show ?thesis by blast
qed

lemma report_loop_missing:
  "d p = None \<Longrightarrow> report_loop h d (p # ps) = ([], Inl ''FileNotFoundError'')"
  by (simp add: getsize_def)

subsection \<open>With the docstring opened\<close>

text \<open>
  What the statements of the function do once the file compiles. When every retrieval
  succeeds, the six files are requested in order, the closing report gives the name and
  size of each, and the result is \<open>True\<close>. When the retrieval of the file at position \<open>k\<close>
  raises, the completion lines of the \<open>k\<close> files before it have been printed, the file
  at \<open>k\<close> is the last one requested, the exception is reported, the closing report is
  not printed, and the result is \<open>False\<close>.
\<close>

lemma docstring_opened_all_retrieved:
  assumes "\<forall>f\<in>set required_files. \<exists>n. serve h f = Inr n"
  shows "\<exists>d'. download_model Docstring_opened h u d =
           (intro_events h @ concat (map (file_events h) required_files)
            @ [Say AllCompleted, Say (FilesAt (abspath h local_dir)), Say DownloadedHeader]
            @ map (\<lambda>f. Say (FileSize (basename h (local_file h f)) (the (d' (local_file h f)))))
                required_files,
            Inr True, d')
         \<and> (\<forall>f\<in>set required_files. d' (local_file h f) \<noteq> None)"
  using download_model_body_ok [OF assms, of u d]
  by (auto simp: download_model_def compile_file_def)

lemma docstring_opened_failure:
  assumes "k < length required_files"
    and "\<forall>i<k. \<exists>n. serve h (required_files ! i) = Inr n"
    and "serve h (required_files ! k) = Inl ex"
  shows "\<exists>d'. download_model Docstring_opened h u d =
           (intro_events h @ concat (map (file_events h) (take k required_files))
            @ [Say (Downloading (required_files ! k)), Request (required_files ! k),
               Say (DownloadFailed ex)],
            Inr False, d')"
  using download_model_body_fail [OF assms, of u d]
  by (auto simp: download_model_def compile_file_def)

lemma docstring_opened_requests:
  assumes "k < length required_files"
  shows "requested (intro_events h @ concat (map (file_events h) required_files)
            @ [Say AllCompleted, Say (FilesAt (abspath h local_dir)), Say DownloadedHeader]
            @ map (\<lambda>f. Say (FileSize (basename h (local_file h f)) (g f))) required_files)
           = required_files"
    and "requested (intro_events h @ concat (map (file_events h) (take k required_files))
            @ [Say (Downloading (required_files ! k)), Request (required_files ! k),
               Say (DownloadFailed ex)])
           = take (Suc k) required_files"
  by (simp_all add: requested_append requested_intro requested_file_events requested_Say_map
      take_Suc_conv_app_nth [OF assms])

subsection \<open>As shipped\<close>

text \<open>
  C5. The claim describes the statements of the function, and the file as shipped never
  runs them. For a hub that serves every file and a run of the script with no flag, the
  run ends with exit status 1 and has printed and requested nothing, where the claim has
  the six files requested in order and a boolean returned; a call of the function after
  an import raises \<open>SyntaxError\<close>.
\<close>

theorem shipped_file_requests_nothing:
  "download_main As_shipped plain_hub [''download_model.py''] empty_disk = ([], 1, empty_disk)
   \<and> requested (fst (download_main As_shipped plain_hub [''download_model.py''] empty_disk)) = []
   \<and> download_model As_shipped plain_hub False empty_disk
       = ([], Inl ''SyntaxError'', empty_disk)
   \<and> serve plain_hub ''config.json'' = Inr 11000"
  by (simp add: download_main_def download_model_def compile_file_def plain_hub_def)

subsection \<open>The flag\<close>

text \<open>
  C4. The flag has no effect. For either reading of the file, a call of
  \<open>download_model\<close> gives the same run, the same result and the same disk for both
  values of \<open>use_q4f16\<close>, and a run of the script does the same for any two command
  lines; the statements of the function do the same for both values of the flag.
\<close>

theorem use_q4f16_has_no_effect:
  "download_model r h use_q4f16 d = download_model r h use_q4f16' d
   \<and> download_main r h argv d = download_main r h argv' d
   \<and> download_model_body h use_q4f16 d = download_model_body h use_q4f16' d"
proof -
  have a: "download_model_body h b d = download_model_body h True d" for b
    by (simp add: download_model_body_def)
  have m: "download_main r h args d
         = (case compile_file r of
              Inl ex \<Rightarrow> ([], 1, d)
            | Inr _ \<Rightarrow>
                (case download_model_body h True d of
                   (evs, result, d') \<Rightarrow> (map Say [MainBanner, MainNote] @ evs, 0, d')))"
    for args
    unfolding download_main_def Let_def
    by (subst a [of "''--q4f16'' \<in> set args \<or> ''-q'' \<in> set args"]) (rule refl)
  have f: "download_model r h b d
         = (case compile_file r of
              Inl ex \<Rightarrow> ([], Inl ex, d)
            | Inr _ \<Rightarrow>
                (case download_model_body h True d of
                   (evs, result, d') \<Rightarrow> (evs, Inr result, d')))"
    for b
    unfolding download_model_def
    by (subst a [of b]) (rule refl)
  have 1: "download_model r h use_q4f16 d = download_model r h use_q4f16' d"
    by (simp only: f [of use_q4f16] f [of use_q4f16'])
  have 2: "download_main r h argv d = download_main r h argv' d"
    by (simp only: m [of argv] m [of argv'])
  have 3: "download_model_body h use_q4f16 d = download_model_body h use_q4f16' d"
    by (simp only: a [of use_q4f16] a [of use_q4f16'])
  show ?thesis using 1 2 3 by blast
qed

end
